theory Spec2Isabelle
  imports Main "HOL-Library.Word" "HOL-Library.Char_ord" "HOL-Library.List_Lexorder"
    "HOL-Library.Multiset"
begin

section \<open>Data model of request.go\<close>

text \<open>
  Go strings are byte sequences, modelled as \<open>string\<close> (a list of 8-bit characters).
  Go's \<open>int\<close> values are only stored and printed here, never computed with, so they are
  modelled as \<open>int\<close>.
\<close>

datatype valueDataType = vdtString | vdtInt | vdtBool

text \<open>
  The struct \<open>valueData\<close> has the fields \<open>is\<close>, \<open>s\<close>, \<open>i\<close> and \<open>b\<close>; the selectors carry the
  prefix \<open>v_\<close> because one-letter constants would capture variables.
\<close>

record valueData =
  v_is :: valueDataType
  v_s :: string
  v_i :: int
  v_b :: bool

text \<open>The zero value of the struct, which \<open>reqQuery{}\<close> and its siblings start from.\<close>

definition valueData_zero :: valueData where
  "valueData_zero = \<lparr> v_is = vdtString, v_s = [], v_i = 0, v_b = False \<rparr>"

record keyValuePair =
  key :: string
  "value" :: valueData

type_synonym reqQuery = keyValuePair
type_synonym reqHeader = keyValuePair
type_synonym reqBody = keyValuePair

definition keyValuePair_zero :: keyValuePair where
  "keyValuePair_zero = \<lparr> key = [], value = valueData_zero \<rparr>"

subsection \<open>strconv\<close>

text \<open>\<open>strconv.Itoa\<close>: the decimal digits of an integer, with a leading minus sign.\<close>

definition digit_char :: "nat \<Rightarrow> char" where
  "digit_char d = char_of (of_char (CHR ''0'') + d :: nat)"

fun nat_digits :: "nat \<Rightarrow> string" where
  "nat_digits n = (if n < 10 then [digit_char n]
                   else nat_digits (n div 10) @ [digit_char (n mod 10)])"

declare nat_digits.simps [simp del]

definition Itoa :: "int \<Rightarrow> string" where
  "Itoa n = (if n < 0 then CHR ''-'' # nat_digits (nat (- n)) else nat_digits (nat n))"

definition FormatBool :: "bool \<Rightarrow> string" where
  "FormatBool x = (if x then ''true'' else ''false'')"

text \<open>\<open>func (v valueData) string() string\<close>\<close>

definition vd_string :: "valueData \<Rightarrow> string" where
  "vd_string v = (case v_is v of
       vdtString \<Rightarrow> v_s v
     | vdtInt \<Rightarrow> Itoa (v_i v)
     | vdtBool \<Rightarrow> FormatBool (v_b v))"

subsection \<open>Options, endpoints and the store of Options objects\<close>

text \<open>
  Modelled from the spec: the struct \<open>Options\<close> is declared outside request.go. The spec
  gives it a timeout in milliseconds and a retry count; the source compares \<open>timeout\<close>
  with \<open>0\<close> and \<open>retries\<close> with a \<open>uint\<close> loop counter, so \<open>retries\<close> is an unsigned
  machine word (64 bits) and \<open>timeout\<close> an integer.
\<close>

record Options =
  timeout :: int
  retries :: "64 word"

text \<open>
  \<open>Request.Options\<close> and \<open>e.parent.Options\<close> are pointers to \<open>Options\<close> objects. The store
  holds these objects; an address is an index into it, and allocation appends.
\<close>

type_synonym addr = nat

text \<open>
  Modelled from the spec: the type of \<open>e.parent\<close> is declared outside request.go; only
  its field \<open>Options\<close> (a pointer) is used. \<open>None\<close> is the nil pointer.
\<close>

record API =
  api_Options :: "addr option"

text \<open>
  Modelled from the spec: \<open>Endpoint\<close> is declared outside request.go; the source uses
  \<open>e.parent\<close> and the method \<open>e.URL()\<close>, which supplies the base URL as a string.
\<close>

record Endpoint =
  parent :: API
  ep_url :: string

definition URL :: "Endpoint \<Rightarrow> string" where
  "URL e = ep_url e"

record Request =
  endPoint :: Endpoint
  queries :: "reqQuery list"
  headers :: "reqHeader list"
  bodyKV :: "reqBody list"
  bodyTXT :: string
  hasBody :: bool
  Options :: "addr option"

text \<open>
  The world a request runs in: the store of \<open>Options\<close> objects, the number of calls of
  \<open>callAPI\<close> started so far, and the milliseconds spent in \<open>time.Sleep\<close>.
\<close>

record world =
  heap :: "Options list"
  calls :: nat
  slept :: nat

definition load :: "world \<Rightarrow> addr option \<Rightarrow> Options option" where
  "load w p = (case p of None \<Rightarrow> None
     | Some a \<Rightarrow> if a < length (heap w) then Some (heap w ! a) else None)"

definition store :: "addr \<Rightarrow> Options \<Rightarrow> world \<Rightarrow> world" where
  "store a v w = (if a < length (heap w) then w\<lparr> heap := (heap w)[a := v] \<rparr> else w)"

text \<open>A function either returns or panics (a nil pointer dereference).\<close>

datatype 'a result = Panic | Ret 'a

text \<open>
  \<open>func (e *Endpoint) NewRequest() *Request\<close>: \<open>opt := *e.parent.Options\<close> copies the
  object, \<open>&opt\<close> is the address of the copy.
\<close>

definition NewRequest :: "Endpoint \<Rightarrow> world \<Rightarrow> (Request \<times> world) result" where
  "NewRequest e w = (case load w (api_Options (parent e)) of
       None \<Rightarrow> Panic
     | Some opt \<Rightarrow>
         Ret (\<lparr> endPoint = e, queries = [], headers = [], bodyKV = [], bodyTXT = [],
                hasBody = False, Options = Some (length (heap w)) \<rparr>,
              w\<lparr> heap := heap w @ [opt] \<rparr>))"

section \<open>The builder operations\<close>

definition AddQuery :: "string \<Rightarrow> string \<Rightarrow> Request \<Rightarrow> Request" where
  "AddQuery k v r =
     (let query = keyValuePair_zero;
          query = query\<lparr> key := k \<rparr>;
          query = query\<lparr> value := (value query)\<lparr> v_is := vdtString \<rparr> \<rparr>;
          query = query\<lparr> value := (value query)\<lparr> v_s := v \<rparr> \<rparr>
      in r\<lparr> queries := queries r @ [query] \<rparr>)"

definition AddQueryBool :: "string \<Rightarrow> bool \<Rightarrow> Request \<Rightarrow> Request" where
  "AddQueryBool k v r =
     (let query = keyValuePair_zero;
          query = query\<lparr> key := k \<rparr>;
          query = query\<lparr> value := (value query)\<lparr> v_is := vdtBool \<rparr> \<rparr>;
          query = query\<lparr> value := (value query)\<lparr> v_b := v \<rparr> \<rparr>
      in r\<lparr> queries := queries r @ [query] \<rparr>)"

definition AddQueryInt :: "string \<Rightarrow> int \<Rightarrow> Request \<Rightarrow> Request" where
  "AddQueryInt k v r =
     (let query = keyValuePair_zero;
          query = query\<lparr> key := k \<rparr>;
          query = query\<lparr> value := (value query)\<lparr> v_is := vdtInt \<rparr> \<rparr>;
          query = query\<lparr> value := (value query)\<lparr> v_i := v \<rparr> \<rparr>
      in r\<lparr> queries := queries r @ [query] \<rparr>)"

definition AddHeader :: "string \<Rightarrow> string \<Rightarrow> Request \<Rightarrow> Request" where
  "AddHeader k v r =
     (let header = keyValuePair_zero;
          header = header\<lparr> key := k \<rparr>;
          header = header\<lparr> value := (value header)\<lparr> v_is := vdtString \<rparr> \<rparr>;
          header = header\<lparr> value := (value header)\<lparr> v_s := v \<rparr> \<rparr>
      in r\<lparr> headers := headers r @ [header] \<rparr>)"

definition FormEncoded :: "Request \<Rightarrow> Request" where
  "FormEncoded r = AddHeader ''Content-Type'' ''application/x-www-form-urlencoded'' r"

definition AddBodyKV :: "string \<Rightarrow> string \<Rightarrow> Request \<Rightarrow> Request" where
  "AddBodyKV k v r =
     (let body = keyValuePair_zero;
          body = body\<lparr> key := k \<rparr>;
          body = body\<lparr> value := (value body)\<lparr> v_is := vdtString \<rparr> \<rparr>;
          body = body\<lparr> value := (value body)\<lparr> v_s := v \<rparr> \<rparr>;
          r = r\<lparr> bodyKV := bodyKV r @ [body] \<rparr>
      in r\<lparr> hasBody := True \<rparr>)"


text \<open>
  Modelled from the spec: \<open>PackageError\<close>, \<open>ErrTimeout\<close> and the error that
  \<open>newQueryError\<close> makes are declared outside request.go. \<open>PackageError\<close> is a struct with
  one field of type \<open>error\<close>, which may be nil (\<open>None\<close>); \<open>ErrTimeout\<close> is the spec's
  TimeoutError; \<open>APIError\<close> is the spec's error for a status other than OK, with the
  status code, the body text and the request. \<open>LibError\<close> is an error made by the
  standard library and \<open>Errorf p s e\<close> the error of \<open>fmt.Errorf\<close> that wraps \<open>e\<close> behind the
  text \<open>p\<close> followed by \<open>s\<close>.
\<close>

datatype err =
    LibError string
  | Errorf string string err
  | ErrTimeout
  | PackageError "err option"
  | APIError int string Request

text \<open>
  \<open>func (r *Request) SetBodyJSON(v any) *Request\<close>. The outcome of \<open>json.Marshal(v)\<close> is
  the argument \<open>m\<close>: \<open>Inl\<close> an error, \<open>Inr\<close> the bytes. The result is the returned pointer:
  \<open>None\<close> is \<open>nil\<close> (the request is then left as it was), \<open>Some\<close> the updated request.
\<close>

definition SetBodyJSON :: "err + string \<Rightarrow> Request \<Rightarrow> Request option" where
  "SetBodyJSON m r = (case m of
       Inl e \<Rightarrow> None
     | Inr b \<Rightarrow> (let r = r\<lparr> bodyTXT := b \<rparr> in Some (r\<lparr> hasBody := True \<rparr>)))"

text \<open>
  A caller's sequence of builder calls on one request. A \<open>SetBodyJSON\<close> that returns
  \<open>nil\<close> has not changed the request, and the caller goes on with the request it holds.
\<close>

datatype builder_op =
    OpAddQuery string string
  | OpAddQueryBool string bool
  | OpAddQueryInt string int
  | OpAddHeader string string
  | OpFormEncoded
  | OpAddBodyKV string string
  | OpSetBodyJSON "err + string"

fun apply_op :: "Request \<Rightarrow> builder_op \<Rightarrow> Request" where
  "apply_op r (OpAddQuery k v) = AddQuery k v r"
| "apply_op r (OpAddQueryBool k v) = AddQueryBool k v r"
| "apply_op r (OpAddQueryInt k v) = AddQueryInt k v r"
| "apply_op r (OpAddHeader k v) = AddHeader k v r"
| "apply_op r OpFormEncoded = FormEncoded r"
| "apply_op r (OpAddBodyKV k v) = AddBodyKV k v r"
| "apply_op r (OpSetBodyJSON m) = (case SetBodyJSON m r of None \<Rightarrow> r | Some r' \<Rightarrow> r')"

definition apply_ops :: "Request \<Rightarrow> builder_op list \<Rightarrow> Request" where
  "apply_ops r ops = foldl apply_op r ops"

text \<open>\<open>json.Marshal\<close> never succeeds with an empty byte sequence.\<close>

fun marshal_ok :: "builder_op \<Rightarrow> bool" where
  "marshal_ok (OpSetBodyJSON (Inr b)) = (b \<noteq> [])"
| "marshal_ok _ = True"

section \<open>The standard library, as far as the request uses it\<close>

subsection \<open>net/url\<close>

text \<open>
  \<open>url.Values\<close> is a \<open>map[string][]string\<close>. It is kept as an association list that is
  read through \<open>map_of\<close>; \<open>Encode\<close> sorts the keys, so the order of the entries
  of the list (Go's map iteration order) never shows.
\<close>

type_synonym Values = "(string \<times> string list) list"

definition Values_Get :: "Values \<Rightarrow> string \<Rightarrow> string list" where
  "Values_Get m k = (case map_of m k of None \<Rightarrow> [] | Some vs \<Rightarrow> vs)"

fun Values_Set :: "string \<Rightarrow> string list \<Rightarrow> Values \<Rightarrow> Values" where
  "Values_Set k vs [] = [(k, vs)]"
| "Values_Set k vs ((k', vs') # m) =
     (if k = k' then (k, vs) # m else (k', vs') # Values_Set k vs m)"

text \<open>\<open>func (v Values) Add(key, value string)\<close>: \<open>v[key] = append(v[key], value)\<close>\<close>

definition Values_Add :: "string \<Rightarrow> string \<Rightarrow> Values \<Rightarrow> Values" where
  "Values_Add k v m = Values_Set k (Values_Get m k @ [v]) m"

text \<open>
  \<open>func (v Values) Encode() string\<close> collects the keys, sorts them (\<open>slices.Sort\<close>, the
  bytewise order of strings) and writes, for each key in that order and each of its
  values in the order of the slice, \<open>QueryEscape(key) = QueryEscape(value)\<close>, with \<open>&\<close>
  between two entries. \<open>Values_pairs\<close> is the sequence of entries written.
\<close>

definition Values_pairs :: "Values \<Rightarrow> (string \<times> string) list" where
  "Values_pairs m =
     concat (map (\<lambda>k. map (Pair k) (Values_Get m k)) (sort (remdups (map fst m))))"

fun join_amp :: "string list \<Rightarrow> string" where
  "join_amp [] = []"
| "join_amp [x] = x"
| "join_amp (x # y # ys) = x @ ''&'' @ join_amp (y # ys)"

definition Values_Encode :: "(string \<Rightarrow> string) \<Rightarrow> Values \<Rightarrow> string" where
  "Values_Encode esc m = join_amp (map (\<lambda>(k, v). esc k @ ''='' @ esc v) (Values_pairs m))"

text \<open>
  A parsed \<open>url.URL\<close>. The source reads and writes \<open>RawQuery\<close> only; \<open>u_head\<close> is what
  \<open>String()\<close> writes before the query (scheme, host and path) and \<open>u_fragment\<close> the
  escaped fragment.
\<close>

record url =
  u_head :: string
  ForceQuery :: bool
  RawQuery :: string
  u_fragment :: string

definition URL_String :: "url \<Rightarrow> string" where
  "URL_String u =
     u_head u
     @ (if ForceQuery u \<or> RawQuery u \<noteq> [] then ''?'' @ RawQuery u else [])
     @ (if u_fragment u \<noteq> [] then ''#'' @ u_fragment u else [])"

text \<open>
  The functions of the standard library that are taken as they come: the check of the
  method name and the URL parser behind \<open>http.NewRequest\<close>, \<open>url.ParseQuery\<close> behind
  \<open>URL.Query()\<close>, \<open>url.QueryEscape\<close>, and the canonical form of a header key
  (\<open>textproto.CanonicalMIMEHeaderKey\<close>) behind \<open>Header.Set\<close>.
\<close>

record lib =
  validMethod :: "string \<Rightarrow> bool"
  url_Parse :: "string \<Rightarrow> err + url"
  ParseQuery :: "string \<Rightarrow> Values"
  QueryEscape :: "string \<Rightarrow> string"
  CanonicalHeaderKey :: "string \<Rightarrow> string"

text \<open>\<open>func (u *URL) Query() Values\<close>\<close>

definition URL_Query :: "lib \<Rightarrow> url \<Rightarrow> Values" where
  "URL_Query L u = ParseQuery L (RawQuery u)"

subsection \<open>net/http\<close>

text \<open>
  The body argument of \<open>http.NewRequest\<close> is an \<open>io.Reader\<close>: the nil interface, a
  \<open>*strings.Reader\<close> that is a nil pointer, or a reader over a string.
\<close>

datatype body_reader = NoBody | NilReader | Reader string

record http_request =
  Method :: string
  req_URL :: url
  Header :: "string \<rightharpoonup> string list"
  req_Body :: body_reader

text \<open>
  \<open>http.NewRequest(method, url, body)\<close> reads an empty method as \<open>GET\<close>, checks the
  method, parses the URL and then looks at the body; for a \<open>*strings.Reader\<close> it calls
  \<open>Len()\<close>, which dereferences the pointer.
\<close>

definition http_NewRequest ::
  "lib \<Rightarrow> string \<Rightarrow> string \<Rightarrow> body_reader \<Rightarrow> (err + http_request) result" where
  "http_NewRequest L method u body =
     (let method = (if method = [] then ''GET'' else method) in
      if \<not> validMethod L method then Ret (Inl (LibError ''net/http: invalid method''))
      else case url_Parse L u of
          Inl e \<Rightarrow> Ret (Inl e)
        | Inr pu \<Rightarrow> (case body of
              NilReader \<Rightarrow> Panic
            | _ \<Rightarrow> Ret (Inr \<lparr> Method = method, req_URL = pu, Header = Map.empty,
                              req_Body = body \<rparr>)))"

text \<open>\<open>func (h Header) Set(key, value string)\<close>\<close>

definition Header_Set ::
  "lib \<Rightarrow> string \<Rightarrow> string \<Rightarrow> (string \<rightharpoonup> string list) \<Rightarrow> (string \<rightharpoonup> string list)" where
  "Header_Set L k v h = h(CanonicalHeaderKey L k \<mapsto> [v])"


section \<open>Materializing a request\<close>

text \<open>\<open>func (r *Request) genHTTPReq(method, epURL string) (*http.Request, error)\<close>\<close>

definition genHTTPReq ::
  "lib \<Rightarrow> string \<Rightarrow> string \<Rightarrow> Request \<Rightarrow> (err + http_request) result" where
  "genHTTPReq L method epURL r =
     (if hasBody r then
        (let bodyString = NilReader;
             bodyString =
               (if length (bodyTXT r) > 0 then Reader (bodyTXT r)
                else if length (bodyKV r) > 0 then
                  (let form = foldl (\<lambda>form body. Values_Add (key body) (vd_string (value body)) form)
                                [] (bodyKV r)
                   in Reader (Values_Encode (QueryEscape L) form))
                else bodyString)
         in http_NewRequest L method epURL bodyString)
      else http_NewRequest L method epURL NoBody)"

text \<open>\<open>func (r *Request) populateHTTPRequest(httpReq *http.Request)\<close>\<close>

definition populateHTTPRequest :: "lib \<Rightarrow> Request \<Rightarrow> http_request \<Rightarrow> http_request" where
  "populateHTTPRequest L r httpReq =
     (let httpQuery = URL_Query L (req_URL httpReq);
          httpQuery = foldl (\<lambda>q qry. Values_Add (key qry) (vd_string (value qry)) q)
                        httpQuery (queries r);
          httpReq = httpReq\<lparr> req_URL := (req_URL httpReq)
                        \<lparr> RawQuery := Values_Encode (QueryEscape L) httpQuery \<rparr> \<rparr>
      in httpReq\<lparr> Header := foldl (\<lambda>h hdr. Header_Set L (key hdr) (vd_string (value hdr)) h)
                                (Header httpReq) (headers r) \<rparr>)"

text \<open>\<open>func (r *Request) RawQueryURL() (string, error)\<close>\<close>

definition RawQueryURL :: "lib \<Rightarrow> Request \<Rightarrow> (string \<times> err option) result" where
  "RawQueryURL L r =
     (let epURL = URL (endPoint r) in
      case http_NewRequest L ''GET'' epURL NoBody of
        Panic \<Rightarrow> Panic
      | Ret (Inl e) \<Rightarrow> Ret ([], Some (PackageError (Some e)))
      | Ret (Inr httpReq) \<Rightarrow>
          (let httpQuery = URL_Query L (req_URL httpReq);
               httpQuery = foldl (\<lambda>q qry. Values_Add (key qry) (vd_string (value qry)) q)
                             httpQuery (queries r);
               httpReq = httpReq\<lparr> req_URL := (req_URL httpReq)
                             \<lparr> RawQuery := Values_Encode (QueryEscape L) httpQuery \<rparr> \<rparr>
           in Ret (URL_String (req_URL httpReq), None)))"

section \<open>Executing a request\<close>

text \<open>
  Modelled from the spec: \<open>Response\<close> and \<open>newResponse\<close> are declared outside request.go.
  The spec's classifier wraps the status code and the body text into a Response; the
  source reads the field \<open>Status\<close>.
\<close>

record Response =
  Status :: int
  Body :: string

definition newResponse :: "int \<Rightarrow> string \<Rightarrow> Response" where
  "newResponse status body = \<lparr> Status = status, Body = body \<rparr>"

text \<open>
  Modelled from the spec: \<open>newQueryError\<close> is declared outside request.go. The spec has it
  produce an \<open>APIError\<close> that carries the status code, the body text and a reference
  to the originating request.
\<close>

definition newQueryError :: "Response \<Rightarrow> Request \<Rightarrow> err" where
  "newQueryError rv r = APIError (Status rv) (Body rv) r"

definition StatusOK :: int where
  "StatusOK = 200"

text \<open>
  What the network does with one request: \<open>httpClient.Do\<close> fails, or it succeeds and
  \<open>io.ReadAll\<close> of the body fails, or status code and body arrive.
\<close>

datatype transport = DoFailed err | ReadFailed err | Replied int string

text \<open>
  The surroundings of one call of \<open>callAPIWithTimeout\<close>: the answer of the network to
  the request sent, and the case that the \<open>select\<close> statement takes when a timeout is
  set: \<open>deadline_first\<close> says that \<open>ctx.Done()\<close> is ready before the goroutine has
  sent its result. The \<open>n\<close>-th call of \<open>callAPI\<close> meets the \<open>n\<close>-th of them.
\<close>

record attempt =
  respond :: "http_request \<Rightarrow> transport"
  deadline_first :: bool

type_synonym outcome = "(Response option \<times> err option) result"

text \<open>\<open>func (r *Request) callAPI(method string) (*Response, error)\<close>\<close>

definition callAPI ::
  "lib \<Rightarrow> string \<Rightarrow> Request \<Rightarrow> (nat \<Rightarrow> attempt) \<Rightarrow> world \<Rightarrow> outcome \<times> world" where
  "callAPI L method r T w =
     (let epURL = URL (endPoint r);
          w' = w\<lparr> calls := calls w + 1 \<rparr>
      in case genHTTPReq L method epURL r of
        Panic \<Rightarrow> (Panic, w')
      | Ret (Inl e) \<Rightarrow>
          (Ret (None, Some (PackageError (Some
             (Errorf (''error in '' @ method) ''(): creating *http.Request: '' e)))), w')
      | Ret (Inr httpReq) \<Rightarrow>
          (let httpReq = populateHTTPRequest L r httpReq in
           case respond (T (calls w)) httpReq of
             DoFailed e \<Rightarrow>
               (Ret (None, Some (PackageError (Some
                  (Errorf (''error in '' @ method) ''(): communicating with api: '' e)))), w')
           | ReadFailed e \<Rightarrow>
               (Ret (None, Some (PackageError (Some
                  (Errorf (''error in '' @ method) ''(): reading body of response: '' e)))), w')
           | Replied status body \<Rightarrow>
               (let rv = newResponse status body in
                if Status rv \<noteq> StatusOK then (Ret (Some rv, Some (newQueryError rv r)), w')
                else (Ret (Some rv, None), w'))))"

text \<open>
  \<open>func (r *Request) callAPIWithTimeout(method string) (*Response, error)\<close>. With a
  timeout the call runs in a goroutine of its own and the \<open>select\<close> statement returns
  from the first case that is ready. When the deadline is first, the goroutine is left
  behind and is not followed any further.
\<close>

definition callAPIWithTimeout ::
  "lib \<Rightarrow> string \<Rightarrow> Request \<Rightarrow> (nat \<Rightarrow> attempt) \<Rightarrow> world \<Rightarrow> outcome \<times> world" where
  "callAPIWithTimeout L method r T w =
     (case load w (Options r) of
        None \<Rightarrow> (Panic, w)
      | Some opts \<Rightarrow>
          if timeout opts \<le> 0 then callAPI L method r T w
          else (case callAPI L method r T w of (out, w') \<Rightarrow>
            if deadline_first (T (calls w)) then (Ret (None, Some ErrTimeout), w')
            else (case out of
                Panic \<Rightarrow> (Panic, w')
              | Ret (res, e) \<Rightarrow> (Ret (res, Some (PackageError e)), w'))))"

text \<open>\<open>time.Sleep(500 * time.Millisecond)\<close>\<close>

definition Sleep :: "nat \<Rightarrow> world \<Rightarrow> world" where
  "Sleep ms w = w\<lparr> slept := slept w + ms \<rparr>"

text \<open>
  The loop of \<open>GET\<close>: \<open>for retry := uint(1); retry <= r.Options.retries; retry++\<close>. The
  counter is a machine word, and \<open>retry++\<close> wraps around. The loop returns \<open>Some out\<close>
  when its body returns \<open>out\<close> from \<open>GET\<close> (or panics), and \<open>None\<close> when it runs to its
  end; the variables \<open>res\<close> and \<open>err\<close> declared in its body are its own. A run that
  never ends has no value.
\<close>

partial_function (option) GET_loop ::
  "lib \<Rightarrow> Request \<Rightarrow> (nat \<Rightarrow> attempt) \<Rightarrow> 64 word \<Rightarrow> 64 word \<Rightarrow> world
     \<Rightarrow> (outcome option \<times> world) option" where
  "GET_loop L r T n retry w =
     (if retry \<le> n then
        (let w = Sleep 500 w in
         case callAPIWithTimeout L ''GET'' r T w of
           (Panic, w) \<Rightarrow> Some (Some Panic, w)
         | (Ret (res, err), w) \<Rightarrow>
             if err = None then Some (Some (Ret (res, err)), w)
             else GET_loop L r T n (retry + 1) w)
      else Some (None, w))"

declare GET_loop.simps [code]

text \<open>\<open>func (r *Request) GET() (*Response, error)\<close>\<close>

definition GET :: "lib \<Rightarrow> Request \<Rightarrow> (nat \<Rightarrow> attempt) \<Rightarrow> world \<Rightarrow> (outcome \<times> world) option" where
  "GET L r T w =
     (case callAPIWithTimeout L ''GET'' r T w of
        (Panic, w) \<Rightarrow> Some (Panic, w)
      | (Ret (res, err), w) \<Rightarrow>
          if err = None then Some (Ret (res, err), w)
          else (case load w (Options r) of
              None \<Rightarrow> Some (Panic, w)
            | Some opts \<Rightarrow>
                if retries opts > 0 then
                  (case GET_loop L r T (retries opts) 1 w of
                     None \<Rightarrow> None
                   | Some (Some out, w) \<Rightarrow> Some (out, w)
                   | Some (None, w) \<Rightarrow> Some (Ret (res, err), w))
                else Some (Ret (res, err), w)))"

text \<open>\<open>func (r *Request) POST() (*Response, error)\<close>\<close>

definition POST :: "lib \<Rightarrow> Request \<Rightarrow> (nat \<Rightarrow> attempt) \<Rightarrow> world \<Rightarrow> outcome \<times> world" where
  "POST L r T w = callAPIWithTimeout L ''POST'' r T w"

text \<open>The key and the value text that one addition of a query or a header contributes.\<close>

definition qpair :: "keyValuePair \<Rightarrow> string \<times> string" where
  "qpair q = (key q, vd_string (value q))"

section \<open>Concrete surroundings for evaluating the model\<close>

text \<open>
  A small instance of the library functions, enough for URLs without query and fragment,
  for keys and values of unreserved characters (which \<open>QueryEscape\<close> leaves as they are)
  and for header keys that are already canonical.
\<close>

definition lib0 :: lib where
  "lib0 = \<lparr> validMethod = (\<lambda>m. m \<noteq> []),
            url_Parse = (\<lambda>u. if u = [] \<or> CHR ''?'' \<in> set u \<or> CHR ''#'' \<in> set u
                              then Inl (LibError ''parse'')
                              else Inr \<lparr> u_head = u, ForceQuery = False, RawQuery = [],
                                        u_fragment = [] \<rparr>),
            ParseQuery = (\<lambda>q. []),
            QueryEscape = (\<lambda>s. s),
            CanonicalHeaderKey = (\<lambda>k. k) \<rparr>"

definition ep0 :: Endpoint where
  "ep0 = \<lparr> parent = \<lparr> api_Options = Some 0 \<rparr>, ep_url = ''http://h/p'' \<rparr>"

text \<open>A world whose only \<open>Options\<close> object, at address 0, is the default of \<open>ep0\<close>.\<close>

definition world0 :: "int \<Rightarrow> 64 word \<Rightarrow> world" where
  "world0 t n = \<lparr> heap = [\<lparr> timeout = t, retries = n \<rparr>], calls = 0, slept = 0 \<rparr>"

text \<open>The request that \<open>NewRequest\<close> makes for \<open>ep0\<close> in \<open>world0\<close>, and the world after it.\<close>

definition req0 :: Request where
  "req0 = \<lparr> endPoint = ep0, queries = [], headers = [], bodyKV = [], bodyTXT = [],
            hasBody = False, Options = Some 1 \<rparr>"

definition world1 :: "int \<Rightarrow> 64 word \<Rightarrow> world" where
  "world1 t n = \<lparr> heap = [\<lparr> timeout = t, retries = n \<rparr>, \<lparr> timeout = t, retries = n \<rparr>],
                 calls = 0, slept = 0 \<rparr>"

definition ops0 :: "builder_op list" where
  "ops0 = [OpAddQuery ''q'' ''1'', OpAddBodyKV ''a'' ''b'',
           OpSetBodyJSON (Inl (LibError ''json'')), OpSetBodyJSON (Inr ''{}''), OpFormEncoded]"

text \<open>A network that refuses every connection, and one that answers every request.\<close>

definition T_fail :: "nat \<Rightarrow> attempt" where
  "T_fail n = \<lparr> respond = (\<lambda>q. DoFailed (LibError ''connection refused'')),
               deadline_first = False \<rparr>"

definition T_reply :: "int \<Rightarrow> string \<Rightarrow> nat \<Rightarrow> attempt" where
  "T_reply status body n = \<lparr> respond = (\<lambda>q. Replied status body), deadline_first = False \<rparr>"

text \<open>A network whose answer comes after the deadline.\<close>

definition T_late :: "nat \<Rightarrow> attempt" where
  "T_late n = \<lparr> respond = (\<lambda>q. Replied 200 ''late''), deadline_first = True \<rparr>"

text \<open>The request that \<open>genHTTPReq\<close> makes from \<open>req0\<close>.\<close>

definition httpReq0 :: "string \<Rightarrow> http_request" where
  "httpReq0 m = \<lparr> Method = m,
       req_URL = \<lparr> u_head = ''http://h/p'', ForceQuery = False, RawQuery = [], u_fragment = [] \<rparr>,
       Header = Map.empty, req_Body = NoBody \<rparr>"

definition url0 :: url where
  "url0 = \<lparr> u_head = ''http://h/p'', ForceQuery = False, RawQuery = [], u_fragment = [] \<rparr>"

text \<open>A network whose first answer comes after the deadline and that behaves like \<open>T\<close> afterwards.\<close>

definition T_late_then :: "(nat \<Rightarrow> attempt) \<Rightarrow> nat \<Rightarrow> attempt" where
  "T_late_then T n = (if n = 0 then T_late 0 else T n)"

text \<open>A network that answers the first request with status 500 and refuses every later one.\<close>

definition T_two :: "nat \<Rightarrow> attempt" where
  "T_two n = (if n = 0 then T_reply 500 ''first'' 0 else T_fail n)"

text \<open>Requests with queries added in the order \<open>a, b, a\<close> and \<open>b, a\<close>, and with three headers.\<close>

definition req_q :: Request where
  "req_q = AddQuery ''a'' ''2'' (AddQuery ''b'' ''1'' (AddQuery ''a'' ''1'' req0))"

definition req_ba :: Request where
  "req_ba = AddQuery ''a'' ''2'' (AddQuery ''b'' ''1'' req0)"

definition req_h :: Request where
  "req_h = AddHeader ''X-A'' ''3'' (AddHeader ''X-B'' ''2'' (AddHeader ''X-A'' ''1'' req0))"


section \<open>Facts about the concrete surroundings\<close>

lemma NewRequest_ep0: "NewRequest ep0 (world0 t n) = Ret (req0, world1 t n)"
  by (simp add: NewRequest_def ep0_def world0_def world1_def req0_def load_def)

lemma load_world1: "load (world1 t n) (Options req0) = Some \<lparr> timeout = t, retries = n \<rparr>"
  by (simp add: load_def world1_def req0_def)

lemma genHTTPReq_req0: "m \<noteq> [] \<Longrightarrow> genHTTPReq lib0 m (URL (endPoint req0)) req0 = Ret (Inr (httpReq0 m))"
  by (simp add: genHTTPReq_def http_NewRequest_def lib0_def req0_def ep0_def URL_def httpReq0_def)

lemmas eval_defs = callAPIWithTimeout_def callAPI_def Let_def genHTTPReq_def http_NewRequest_def
  populateHTTPRequest_def load_def Sleep_def lib0_def req0_def ep0_def URL_def world1_def
  newResponse_def newQueryError_def StatusOK_def URL_Query_def Values_Encode_def
  Values_pairs_def T_reply_def T_fail_def T_late_def POST_def word_le_nat_alt word_less_nat_alt

lemmas build_defs = AddQuery_def AddHeader_def keyValuePair_zero_def valueData_zero_def
  vd_string_def qpair_def Values_Add_def Values_Get_def URL_String_def httpReq0_def Header_Set_def

section \<open>The body invariant\<close>

lemma apply_op_inv:
  assumes "marshal_ok op" "hasBody r = (bodyTXT r \<noteq> [] \<or> bodyKV r \<noteq> [])"
  shows "hasBody (apply_op r op) = (bodyTXT (apply_op r op) \<noteq> [] \<or> bodyKV (apply_op r op) \<noteq> [])"
  using assms
  by (cases op rule: marshal_ok.cases)
     (auto simp: AddQuery_def AddQueryBool_def AddQueryInt_def AddHeader_def FormEncoded_def
        AddBodyKV_def SetBodyJSON_def Let_def split: sum.splits)

lemma apply_ops_inv:
  "\<forall>op \<in> set ops. marshal_ok op \<Longrightarrow> hasBody r = (bodyTXT r \<noteq> [] \<or> bodyKV r \<noteq> []) \<Longrightarrow>
   hasBody (apply_ops r ops) = (bodyTXT (apply_ops r ops) \<noteq> [] \<or> bodyKV (apply_ops r ops) \<noteq> [])"
  unfolding apply_ops_def
proof (induction ops arbitrary: r)
  case Nil
  then show ?case by simp
next
  case (Cons op ops)
  have "hasBody (apply_op r op) = (bodyTXT (apply_op r op) \<noteq> [] \<or> bodyKV (apply_op r op) \<noteq> [])"
    using Cons.prems by (intro apply_op_inv) auto
  then show ?case using Cons.IH[of "apply_op r op"] Cons.prems(1) by simp
qed

lemma NewRequest_inv:
  "NewRequest e w = Ret (r, w') \<Longrightarrow> hasBody r = (bodyTXT r \<noteq> [] \<or> bodyKV r \<noteq> [])"
  by (auto simp: NewRequest_def split: option.splits)

lemma genHTTPReq_reader:
  "hasBody r \<Longrightarrow> bodyTXT r \<noteq> [] \<or> bodyKV r \<noteq> [] \<Longrightarrow>
   \<exists>s. genHTTPReq L m u r = http_NewRequest L m u (Reader s)"
  by (auto simp: genHTTPReq_def Let_def)

text \<open>
  C10. A request made by \<open>NewRequest\<close> and changed by any sequence of builder calls, in
  which no \<open>json.Marshal\<close> succeeds with empty text, has \<open>hasBody\<close> true exactly when
  \<open>bodyTXT\<close> or \<open>bodyKV\<close> is not empty. So when \<open>hasBody\<close> is true, \<open>genHTTPReq\<close> hands a
  reader over a string to \<open>http.NewRequest\<close>, never the nil \<open>*strings.Reader\<close>, and it
  does not panic.
\<close>

theorem body_invariant:
  assumes "NewRequest e w = Ret (r0, w0)"
    and "list_all marshal_ok ops"
    and "r = apply_ops r0 ops"
  shows "(hasBody r \<longleftrightarrow> bodyTXT r \<noteq> [] \<or> bodyKV r \<noteq> [])
       \<and> (hasBody r \<longrightarrow> (\<exists>s. genHTTPReq L m u r = http_NewRequest L m u (Reader s)))
       \<and> genHTTPReq L m u r \<noteq> Panic"
proof -
  have inv: "hasBody r \<longleftrightarrow> bodyTXT r \<noteq> [] \<or> bodyKV r \<noteq> []"
    using apply_ops_inv[OF _ NewRequest_inv[OF assms(1)], of ops] assms(2,3)
    by (simp add: list_all_iff)
  have rd: "hasBody r \<longrightarrow> (\<exists>s. genHTTPReq L m u r = http_NewRequest L m u (Reader s))"
    using inv genHTTPReq_reader by blast
  have "genHTTPReq L m u r \<noteq> Panic"
  proof (cases "hasBody r")
    case True
    then obtain s where "genHTTPReq L m u r = http_NewRequest L m u (Reader s)" using rd by blast
    then show ?thesis by (simp add: http_NewRequest_def Let_def split: sum.splits)
  next
    case False
    then show ?thesis by (simp add: genHTTPReq_def http_NewRequest_def Let_def split: sum.splits)
  qed
  with inv rd show ?thesis by blast
qed

theorem body_invariant_witness:
  "NewRequest ep0 (world0 0 0) = Ret (req0, world1 0 0)
   \<and> list_all marshal_ok ops0
   \<and> hasBody (apply_ops req0 ops0)
   \<and> bodyTXT (apply_ops req0 ops0) = ''{}''
   \<and> genHTTPReq lib0 ''POST'' ''http://h/p'' (apply_ops req0 ops0)
       = http_NewRequest lib0 ''POST'' ''http://h/p'' (Reader ''{}'')
   \<and> genHTTPReq lib0 ''POST'' ''http://h/p'' (apply_ops req0 ops0) \<noteq> Panic"
proof -
  have h1: "NewRequest ep0 (world0 0 0) = Ret (req0, world1 0 0)"
    by (rule NewRequest_ep0)
  have h2: "list_all marshal_ok ops0" by (simp add: ops0_def)
  have bt: "bodyTXT (apply_ops req0 ops0) = ''{}''"
    by (simp add: apply_ops_def ops0_def req0_def AddQuery_def AddBodyKV_def SetBodyJSON_def
          FormEncoded_def AddHeader_def Let_def)
  have g: "genHTTPReq lib0 ''POST'' ''http://h/p'' (apply_ops req0 ops0)
       = http_NewRequest lib0 ''POST'' ''http://h/p'' (Reader ''{}'')"
    using body_invariant [OF h1 h2 refl, of lib0 "''POST''" "''http://h/p''"] bt
    by (auto simp: genHTTPReq_def Let_def)
  show ?thesis
    using body_invariant [OF h1 h2 refl, of lib0 "''POST''" "''http://h/p''"] h1 h2 bt g
    by simp
qed

section \<open>What one call does to the world\<close>

lemma callAPI_calls: "calls (snd (callAPI L m r T w)) = calls w + 1"
  by (simp add: callAPI_def Let_def split: result.splits sum.splits transport.splits)

lemma callAPI_slept: "slept (snd (callAPI L m r T w)) = slept w"
  by (simp add: callAPI_def Let_def split: result.splits sum.splits transport.splits)

lemma callAPI_heap: "heap (snd (callAPI L m r T w)) = heap w"
  by (simp add: callAPI_def Let_def split: result.splits sum.splits transport.splits)

lemma callAPIWithTimeout_calls:
  "load w (Options r) = Some opts \<Longrightarrow> calls (snd (callAPIWithTimeout L m r T w)) = calls w + 1"
  using callAPI_calls [of L m r T w]
  by (auto simp: callAPIWithTimeout_def split: prod.splits result.splits)

lemma callAPIWithTimeout_slept:
  "slept (snd (callAPIWithTimeout L m r T w)) = slept w"
  using callAPI_slept [of L m r T w]
  by (auto simp: callAPIWithTimeout_def split: prod.splits result.splits option.splits)

lemma callAPIWithTimeout_heap:
  "heap (snd (callAPIWithTimeout L m r T w)) = heap w"
  using callAPI_heap [of L m r T w]
  by (auto simp: callAPIWithTimeout_def split: prod.splits result.splits option.splits)

lemma load_heap_eq: "heap w' = heap w \<Longrightarrow> load w' p = load w p"
  by (cases p) (simp_all add: load_def)

lemma callAPI_T_fail:
  "m \<noteq> [] \<Longrightarrow> fst (callAPI lib0 m req0 T_fail w) =
     Ret (None, Some (PackageError (Some
       (Errorf (''error in '' @ m) ''(): communicating with api: '' (LibError ''connection refused'')))))"
  by (simp add: callAPI_def Let_def genHTTPReq_req0 T_fail_def)

lemma callAPI_T_reply:
  "m \<noteq> [] \<Longrightarrow> fst (callAPI lib0 m req0 (T_reply status body) w) =
     (if status = 200 then Ret (Some \<lparr> Status = status, Body = body \<rparr>, None)
      else Ret (Some \<lparr> Status = status, Body = body \<rparr>, Some (APIError status body req0)))"
  by (simp add: callAPI_def Let_def genHTTPReq_req0 T_reply_def newResponse_def
        newQueryError_def StatusOK_def)

text \<open>
  The builder calls leave the \<open>Options\<close> pointer alone, so a request made by
  \<open>NewRequest\<close> has an \<open>Options\<close> object whatever has been added to it.
\<close>

lemma apply_op_Options: "Options (apply_op r op) = Options r"
  by (cases op)
     (simp_all add: AddQuery_def AddQueryBool_def AddQueryInt_def AddHeader_def FormEncoded_def
        AddBodyKV_def SetBodyJSON_def Let_def split: sum.splits)

lemma apply_ops_Options: "Options (apply_ops r ops) = Options r"
  unfolding apply_ops_def by (induction ops arbitrary: r) (simp_all add: apply_op_Options)

lemma NewRequest_has_Options:
  "NewRequest e w = Ret (r, w') \<Longrightarrow> \<exists>opts. load w' (Options (apply_ops r ops)) = Some opts"
  by (auto simp: apply_ops_Options NewRequest_def load_def split: option.splits if_splits)

section \<open>POST\<close>

text \<open>
  C9. A \<open>POST\<close> on a request with an \<open>Options\<close> object starts \<open>callAPI\<close> exactly once and
  never sleeps, whatever the retry count in the options is and whatever the call
  returns.
\<close>

theorem POST_single_attempt:
  assumes "load w (Options r) = Some opts"
  shows "calls (snd (POST L r T w)) = calls w + 1 \<and> slept (snd (POST L r T w)) = slept w"
  using callAPIWithTimeout_calls [OF assms] callAPIWithTimeout_slept
  by (simp add: POST_def)

theorem POST_single_attempt_witness:
  "load (world1 0 3) (Options req0) = Some \<lparr> timeout = 0, retries = 3 \<rparr>
   \<and> fst (POST lib0 req0 T_fail (world1 0 3))
       = Ret (None, Some (PackageError (Some
           (Errorf ''error in POST'' ''(): communicating with api: ''
              (LibError ''connection refused'')))))
   \<and> calls (snd (POST lib0 req0 T_fail (world1 0 3))) = 1
   \<and> slept (snd (POST lib0 req0 T_fail (world1 0 3))) = 0"
proof -
  have h: "load (world1 0 3) (Options req0) = Some \<lparr> timeout = 0, retries = 3 \<rparr>"
    by (rule load_world1)
  have o: "fst (POST lib0 req0 T_fail (world1 0 3))
       = Ret (None, Some (PackageError (Some
           (Errorf ''error in POST'' ''(): communicating with api: ''
              (LibError ''connection refused'')))))"
    using callAPI_T_fail [of "''POST''" "world1 0 3"]
    by (simp add: POST_def callAPIWithTimeout_def h)
  show ?thesis using POST_single_attempt [OF h, of lib0 T_fail] h o by (simp add: world1_def)
qed

section \<open>The timeout boundary\<close>

lemma GET_no_retries:
  assumes "load w (Options r) = Some opts" "retries opts = 0"
  shows "GET L r T w = Some (callAPIWithTimeout L ''GET'' r T w)"
proof -
  obtain out w' where c: "callAPIWithTimeout L ''GET'' r T w = (out, w')"
    by (cases "callAPIWithTimeout L ''GET'' r T w")
  have "heap w' = heap w" using callAPIWithTimeout_heap [of L "''GET''" r T w] c by simp
  then have l: "load w' (Options r) = Some opts" using assms(1) load_heap_eq by metis
  show ?thesis using c l assms(2)
    by (auto simp: GET_def split: result.splits)
qed

text \<open>
  C5. On a request with an \<open>Options\<close> object: when the timeout is at most \<open>0\<close>,
  \<open>callAPIWithTimeout\<close> is \<open>callAPI\<close> itself, run in place, and returns its outcome;
  so does \<open>POST\<close>, and \<open>GET\<close> when it makes its single attempt. When the timeout is
  positive and the deadline is reached before the goroutine has delivered, they
  return no Response and \<open>ErrTimeout\<close>.
\<close>

theorem timeout_boundary:
  assumes "load w (Options r) = Some opts"
  shows "(timeout opts \<le> 0 \<longrightarrow>
            callAPIWithTimeout L m r T w = callAPI L m r T w
          \<and> POST L r T w = callAPI L ''POST'' r T w
          \<and> (retries opts = 0 \<longrightarrow> GET L r T w = Some (callAPI L ''GET'' r T w)))
       \<and> (timeout opts > 0 \<and> deadline_first (T (calls w)) \<longrightarrow>
            fst (callAPIWithTimeout L m r T w) = Ret (None, Some ErrTimeout)
          \<and> fst (POST L r T w) = Ret (None, Some ErrTimeout)
          \<and> (retries opts = 0 \<longrightarrow>
                map_option fst (GET L r T w) = Some (Ret (None, Some ErrTimeout))))"
proof -
  have a: "timeout opts \<le> 0 \<Longrightarrow> callAPIWithTimeout L m' r T w = callAPI L m' r T w" for m'
    using assms by (simp add: callAPIWithTimeout_def)
  have b: "timeout opts > 0 \<Longrightarrow> deadline_first (T (calls w)) \<Longrightarrow>
       fst (callAPIWithTimeout L m' r T w) = Ret (None, Some ErrTimeout)" for m'
    using assms by (simp add: callAPIWithTimeout_def split: prod.splits)
  show ?thesis
    using a b GET_no_retries [OF assms, of L T] by (simp add: POST_def)
qed

theorem timeout_boundary_witness:
  "load (world1 0 0) (Options req0) = Some \<lparr> timeout = 0, retries = 0 \<rparr>
   \<and> callAPIWithTimeout lib0 ''GET'' req0 (T_reply 200 ''ok'') (world1 0 0)
       = callAPI lib0 ''GET'' req0 (T_reply 200 ''ok'') (world1 0 0)
   \<and> POST lib0 req0 (T_reply 200 ''ok'') (world1 0 0)
       = callAPI lib0 ''POST'' req0 (T_reply 200 ''ok'') (world1 0 0)
   \<and> GET lib0 req0 (T_reply 200 ''ok'') (world1 0 0)
       = Some (callAPI lib0 ''GET'' req0 (T_reply 200 ''ok'') (world1 0 0))
   \<and> fst (callAPI lib0 ''GET'' req0 (T_reply 200 ''ok'') (world1 0 0))
       = Ret (Some \<lparr> Status = 200, Body = ''ok'' \<rparr>, None)
   \<and> load (world1 100 0) (Options req0) = Some \<lparr> timeout = 100, retries = 0 \<rparr>
   \<and> deadline_first (T_late (calls (world1 100 0)))
   \<and> fst (callAPIWithTimeout lib0 ''GET'' req0 T_late (world1 100 0)) = Ret (None, Some ErrTimeout)
   \<and> fst (POST lib0 req0 T_late (world1 100 0)) = Ret (None, Some ErrTimeout)
   \<and> map_option fst (GET lib0 req0 T_late (world1 100 0)) = Some (Ret (None, Some ErrTimeout))"
proof -
  have h0: "load (world1 0 0) (Options req0) = Some \<lparr> timeout = 0, retries = 0 \<rparr>"
    by (rule load_world1)
  have h1: "load (world1 100 0) (Options req0) = Some \<lparr> timeout = 100, retries = 0 \<rparr>"
    by (rule load_world1)
  have d: "deadline_first (T_late (calls (world1 100 0)))" by (simp add: T_late_def)
  have o: "fst (callAPI lib0 ''GET'' req0 (T_reply 200 ''ok'') (world1 0 0))
       = Ret (Some \<lparr> Status = 200, Body = ''ok'' \<rparr>, None)"
    by (simp add: callAPI_T_reply)
  show ?thesis
    using timeout_boundary [OF h0, where L = lib0 and m = "''GET''" and T = "T_reply 200 ''ok''"]
      timeout_boundary [OF h1, where L = lib0 and m = "''GET''" and T = T_late] h0 h1 d o
    by simp
qed

section \<open>Classifying the status code\<close>

text \<open>
  C6. When the request could be built and the round trip has come back with a status
  code and a body, \<open>callAPI\<close> returns the Response; with it no error when the status is
  200, and for every other status the \<open>APIError\<close> that carries the status code, the
  body text and the request.
\<close>

theorem status_classification:
  assumes "genHTTPReq L m (URL (endPoint r)) r = Ret (Inr httpReq)"
    and "respond (T (calls w)) (populateHTTPRequest L r httpReq) = Replied status body"
  shows "fst (callAPI L m r T w) =
           (if status = 200 then Ret (Some \<lparr> Status = status, Body = body \<rparr>, None)
            else Ret (Some \<lparr> Status = status, Body = body \<rparr>, Some (APIError status body r)))"
  using assms
  by (simp add: callAPI_def Let_def newResponse_def newQueryError_def StatusOK_def)

theorem status_classification_witness:
  "genHTTPReq lib0 ''GET'' (URL (endPoint req0)) req0 = Ret (Inr (httpReq0 ''GET''))
   \<and> respond (T_reply 200 ''ok'' (calls (world1 0 0)))
        (populateHTTPRequest lib0 req0 (httpReq0 ''GET'')) = Replied 200 ''ok''
   \<and> fst (callAPI lib0 ''GET'' req0 (T_reply 200 ''ok'') (world1 0 0))
       = Ret (Some \<lparr> Status = 200, Body = ''ok'' \<rparr>, None)
   \<and> respond (T_reply 404 ''gone'' (calls (world1 0 0)))
        (populateHTTPRequest lib0 req0 (httpReq0 ''GET'')) = Replied 404 ''gone''
   \<and> fst (callAPI lib0 ''GET'' req0 (T_reply 404 ''gone'') (world1 0 0))
       = Ret (Some \<lparr> Status = 404, Body = ''gone'' \<rparr>, Some (APIError 404 ''gone'' req0))
   \<and> respond (T_reply 201 ''made'' (calls (world1 0 0)))
        (populateHTTPRequest lib0 req0 (httpReq0 ''GET'')) = Replied 201 ''made''
   \<and> fst (callAPI lib0 ''GET'' req0 (T_reply 201 ''made'') (world1 0 0))
       = Ret (Some \<lparr> Status = 201, Body = ''made'' \<rparr>, Some (APIError 201 ''made'' req0))"
proof -
  have g: "genHTTPReq lib0 ''GET'' (URL (endPoint req0)) req0 = Ret (Inr (httpReq0 ''GET''))"
    by (simp add: genHTTPReq_req0)
  have t: "respond (T_reply s b (calls (world1 0 0)))
        (populateHTTPRequest lib0 req0 (httpReq0 ''GET'')) = Replied s b" for s b
    by (simp add: T_reply_def)
  show ?thesis
    using status_classification [OF g, where T = "T_reply 200 ''ok''" and w = "world1 0 0", OF t]
      status_classification [OF g, where T = "T_reply 404 ''gone''" and w = "world1 0 0", OF t]
      status_classification [OF g, where T = "T_reply 201 ''made''" and w = "world1 0 0", OF t] g t
    by simp
qed

section \<open>The options of a request are its own\<close>

lemma load_store_other:
  "a \<noteq> b \<Longrightarrow> load (store a v w) (Some b) = load w (Some b)"
  by (simp add: load_def store_def)

lemma load_stores_other:
  "a \<noteq> b \<Longrightarrow> load (foldl (\<lambda>w v. store a v w) w vs) (Some b) = load w (Some b)"
  by (induction vs arbitrary: w) (simp_all add: load_store_other)

text \<open>
  C8. \<open>NewRequest\<close> gives the request an \<open>Options\<close> object of its own, at an address
  other than that of the endpoint's defaults, holding the defaults as they are at that
  moment. After any sequence of writes to the endpoint's default \<open>Options\<close> object the
  request's options are still the defaults of the moment of its creation.
\<close>

theorem options_snapshot:
  assumes "NewRequest e w = Ret (r, w')"
    and "api_Options (parent e) = Some p"
  shows "Options r \<noteq> Some p
       \<and> load w (Some p) \<noteq> None
       \<and> load w' (Options r) = load w (Some p)
       \<and> load (foldl (\<lambda>w v. store p v w) w' vs) (Options r) = load w (Some p)"
proof -
  from assms obtain opt where p: "p < length (heap w)" "heap w ! p = opt"
    and r: "Options r = Some (length (heap w))" and w': "w' = w\<lparr> heap := heap w @ [opt] \<rparr>"
    by (auto simp: NewRequest_def load_def split: option.splits if_splits)
  have 1: "Options r \<noteq> Some p" using p r by simp
  have 2: "load w' (Options r) = load w (Some p)"
    using p r w' by (simp add: load_def)
  have 3: "load w (Some p) \<noteq> None" using p by (simp add: load_def)
  have "load (foldl (\<lambda>w v. store p v w) w' vs) (Options r) = load w' (Options r)"
    unfolding r using p(1) by (intro load_stores_other) simp
  with 1 2 3 show ?thesis by simp
qed

theorem options_snapshot_witness:
  "NewRequest ep0 (world0 5 2) = Ret (req0, world1 5 2)
   \<and> api_Options (parent ep0) = Some 0
   \<and> load (foldl (\<lambda>w v. store 0 v w) (world1 5 2)
        [\<lparr> timeout = 0, retries = 7 \<rparr>, \<lparr> timeout = 900, retries = 0 \<rparr>]) (Some 0)
       = Some \<lparr> timeout = 900, retries = 0 \<rparr>
   \<and> load (foldl (\<lambda>w v. store 0 v w) (world1 5 2)
        [\<lparr> timeout = 0, retries = 7 \<rparr>, \<lparr> timeout = 900, retries = 0 \<rparr>]) (Options req0)
       = Some \<lparr> timeout = 5, retries = 2 \<rparr>"
proof -
  have h: "NewRequest ep0 (world0 5 2) = Ret (req0, world1 5 2)" by (rule NewRequest_ep0)
  have p: "api_Options (parent ep0) = Some 0" by (simp add: ep0_def)
  have d: "load (foldl (\<lambda>w v. store 0 v w) (world1 5 2)
        [\<lparr> timeout = 0, retries = 7 \<rparr>, \<lparr> timeout = 900, retries = 0 \<rparr>]) (Some 0)
       = Some \<lparr> timeout = 900, retries = 0 \<rparr>"
    by (simp add: store_def load_def world1_def)
  have l: "load (world0 5 2) (Some 0) = Some \<lparr> timeout = 5, retries = 2 \<rparr>"
    by (simp add: load_def world0_def)
  show ?thesis
    using options_snapshot [OF h p, of "[\<lparr> timeout = 0, retries = 7 \<rparr>, \<lparr> timeout = 900, retries = 0 \<rparr>]"]
      h p d l
    by simp
qed

section \<open>Headers\<close>

lemma foldl_Header_Set:
  "foldl (\<lambda>h hdr. Header_Set L (key hdr) (vd_string (value hdr)) h) h0 hs k =
     (case filter (\<lambda>x. CanonicalHeaderKey L (key x) = k) hs of
        [] \<Rightarrow> h0 k
      | y # ys \<Rightarrow> Some [vd_string (value (last (y # ys)))])"
proof (induction hs rule: rev_induct)
  case Nil
  then show ?case by simp
next
  case (snoc x xs)
  then show ?case
    by (auto simp: Header_Set_def split: list.splits)
qed

text \<open>
  C7. When a header key has been added to a request, the materialized request holds
  under that key (in the canonical form in which \<open>Header.Set\<close> stores it) exactly one
  value: the value of the last addition of that key. Additions whose keys have the
  same canonical form count as additions of the same key; when no differently written
  key shares the canonical form, this is the last addition of literally that key.
\<close>

theorem header_last_wins:
  assumes "hdr \<in> set (headers r)"
  shows "Header (populateHTTPRequest L r httpReq) (CanonicalHeaderKey L (key hdr)) =
           Some [vd_string (value (last (filter
              (\<lambda>x. CanonicalHeaderKey L (key x) = CanonicalHeaderKey L (key hdr)) (headers r))))]
       \<and> ((\<forall>x \<in> set (headers r).
              CanonicalHeaderKey L (key x) = CanonicalHeaderKey L (key hdr) \<longrightarrow> key x = key hdr) \<longrightarrow>
            Header (populateHTTPRequest L r httpReq) (CanonicalHeaderKey L (key hdr)) =
              Some [vd_string (value (last (filter (\<lambda>x. key x = key hdr) (headers r))))])"
proof -
  have ne: "filter (\<lambda>x. CanonicalHeaderKey L (key x) = CanonicalHeaderKey L (key hdr)) (headers r) \<noteq> []"
    using assms by (auto simp: filter_empty_conv)
  then have 1: "Header (populateHTTPRequest L r httpReq) (CanonicalHeaderKey L (key hdr)) =
           Some [vd_string (value (last (filter
              (\<lambda>x. CanonicalHeaderKey L (key x) = CanonicalHeaderKey L (key hdr)) (headers r))))]"
    by (simp add: populateHTTPRequest_def Let_def foldl_Header_Set split: list.splits)
  have 2: "filter (\<lambda>x. CanonicalHeaderKey L (key x) = CanonicalHeaderKey L (key hdr)) (headers r)
         = filter (\<lambda>x. key x = key hdr) (headers r)"
    if "\<forall>x \<in> set (headers r).
          CanonicalHeaderKey L (key x) = CanonicalHeaderKey L (key hdr) \<longrightarrow> key x = key hdr"
    using that by (intro filter_cong) auto
  from 1 2 show ?thesis by simp
qed

theorem header_last_wins_witness:
  "\<lparr> key = ''X-A'', value = \<lparr> v_is = vdtString, v_s = ''1'', v_i = 0, v_b = False \<rparr> \<rparr>
      \<in> set (headers req_h)
   \<and> map qpair (headers req_h) = [(''X-A'', ''1''), (''X-B'', ''2''), (''X-A'', ''3'')]
   \<and> filter (\<lambda>x. CanonicalHeaderKey lib0 (key x) = CanonicalHeaderKey lib0 ''X-A'') (headers req_h)
       = filter (\<lambda>x. key x = ''X-A'') (headers req_h)
   \<and> Header (populateHTTPRequest lib0 req_h (httpReq0 ''GET'')) ''X-A'' = Some [''3'']"
proof -
  have h: "\<lparr> key = ''X-A'', value = \<lparr> v_is = vdtString, v_s = ''1'', v_i = 0, v_b = False \<rparr> \<rparr>
      \<in> set (headers req_h)"
    by (simp add: req_h_def build_defs eval_defs)
  have q: "map qpair (headers req_h) = [(''X-A'', ''1''), (''X-B'', ''2''), (''X-A'', ''3'')]"
    by (simp add: req_h_def build_defs eval_defs)
  have f: "filter (\<lambda>x. CanonicalHeaderKey lib0 (key x) = CanonicalHeaderKey lib0 ''X-A'') (headers req_h)
       = filter (\<lambda>x. key x = ''X-A'') (headers req_h)"
    by (simp add: lib0_def)
  show ?thesis
    using header_last_wins [OF h, of lib0 "httpReq0 ''GET''"] h q f
    by (simp add: req_h_def build_defs eval_defs)
qed

section \<open>The query string\<close>

lemma map_of_Values_Set: "map_of (Values_Set k vs m) = (map_of m)(k \<mapsto> vs)"
  by (induction m) (auto simp: fun_eq_iff)

lemma Values_Get_Add:
  "Values_Get (Values_Add k v m) k' = (if k' = k then Values_Get m k @ [v] else Values_Get m k')"
  by (simp add: Values_Get_def Values_Add_def map_of_Values_Set)

lemma Values_Get_foldl:
  "Values_Get (foldl (\<lambda>q qry. Values_Add (key qry) (vd_string (value qry)) q) m qs) k =
     Values_Get m k @ map snd (filter (\<lambda>p. fst p = k) (map qpair qs))"
  by (induction qs rule: rev_induct) (auto simp: Values_Get_Add qpair_def)

lemma blocks_sorted:
  "sorted ks \<Longrightarrow> sorted (map fst (concat (map (\<lambda>k. map (Pair k) (g k)) ks)))"
  by (induction ks) (auto simp: sorted_append comp_def map_replicate_const)

lemma blocks_filter:
  "distinct ks \<Longrightarrow> filter (\<lambda>p. fst p = k) (concat (map (\<lambda>k. map (Pair k) (g k)) ks)) =
     (if k \<in> set ks then map (Pair k) (g k) else [])"
proof (induction ks)
  case Nil
  then show ?case by simp
next
  case (Cons a ks)
  have "filter (\<lambda>p. fst p = k) (map (Pair a) (g a)) = (if a = k then map (Pair a) (g a) else [])"
    by (induction "g a") (auto simp: filter_empty_conv)
  with Cons show ?case by (auto simp: filter_empty_conv)
qed

lemma Values_Get_no_key: "k \<notin> fst ` set m \<Longrightarrow> Values_Get m k = []"
  by (simp add: Values_Get_def map_of_eq_None_iff[THEN iffD2])

lemma Values_pairs_sorted: "sorted (map fst (Values_pairs m))"
  unfolding Values_pairs_def by (rule blocks_sorted) simp

lemma Values_pairs_filter:
  "filter (\<lambda>p. fst p = k) (Values_pairs m) = map (Pair k) (Values_Get m k)"
  unfolding Values_pairs_def
  by (simp add: blocks_filter Values_Get_no_key)

lemma mset_eq_by_key:
  assumes "\<And>k. filter (\<lambda>x. f x = k) ys = filter (\<lambda>x. f x = k) xs"
  shows "mset ys = mset xs"
proof (rule multiset_eqI)
  fix x
  have "count (mset ys) x = count (mset (filter (\<lambda>y. f y = f x) ys)) x" by simp
  also have "\<dots> = count (mset (filter (\<lambda>y. f y = f x) xs)) x" using assms by simp
  also have "\<dots> = count (mset xs) x" by simp
  finally show "count (mset ys) x = count (mset xs) x" .
qed

text \<open>
  A list that is sorted by key and agrees with \<open>xs\<close> on the entries of every single
  key, in their order, is the stable sort of \<open>xs\<close>.
\<close>

lemma stable_sort_unique:
  assumes "sorted (map f ys)"
    and "\<And>k. filter (\<lambda>x. f x = k) ys = filter (\<lambda>x. f x = k) xs"
  shows "sort_key f xs = ys"
proof (rule properties_for_sort_key)
  show "mset ys = mset xs" using assms(2) by (rule mset_eq_by_key)
  show "sorted (map f ys)" by fact
  show "filter (\<lambda>x. f k = f x) ys = filter (\<lambda>x. f k = f x) xs" for k
    using assms(2)[of "f k"] by (simp add: eq_commute)
qed

lemma Values_pairs_foldl:
  "Values_pairs (foldl (\<lambda>q qry. Values_Add (key qry) (vd_string (value qry)) q) m qs) =
     sort_key fst (Values_pairs m @ map qpair qs)"
proof (rule stable_sort_unique [symmetric])
  show "sorted (map fst (Values_pairs
          (foldl (\<lambda>q qry. Values_Add (key qry) (vd_string (value qry)) q) m qs)))"
    by (rule Values_pairs_sorted)
  show "filter (\<lambda>x. fst x = k) (Values_pairs
          (foldl (\<lambda>q qry. Values_Add (key qry) (vd_string (value qry)) q) m qs)) =
        filter (\<lambda>x. fst x = k) (Values_pairs m @ map qpair qs)" for k
  proof -
    have "map (Pair k) (map snd (filter (\<lambda>p. fst p = k) (map qpair qs)))
            = filter (\<lambda>p. fst p = k) (map qpair qs)"
      by (induction qs) auto
    then show ?thesis
      by (simp add: Values_pairs_filter Values_Get_foldl)
  qed
qed

lemma sort_key_filter_key:
  "filter (\<lambda>p. f p = k) (sort_key f xs) = filter (\<lambda>p. f p = k) xs"
  using sort_key_stable [of f k xs] by (simp add: eq_commute)

text \<open>
  C3, as the code has it. The entries of the encoded query string, both in
  \<open>RawQueryURL\<close> and in the request that is sent, are the entries that the endpoint's URL
  already has followed by the additions, sorted by key (bytewise) with a stable sort:
  ascending by key, and the entries of one key in the order of their additions. A key
  added \<open>n\<close> times has exactly \<open>n\<close> entries besides those of the endpoint's URL.
\<close>

theorem query_order:
  assumes "url_Parse L (URL (endPoint r)) = Inr u" and "validMethod L ''GET''"
    and "req_URL httpReq = u"
    and "ps = sort_key fst (Values_pairs (URL_Query L u) @ map qpair (queries r))"
  shows "RawQueryURL L r =
           Ret (URL_String (u\<lparr> RawQuery :=
                  join_amp (map (\<lambda>(k, v). QueryEscape L k @ ''='' @ QueryEscape L v) ps) \<rparr>), None)
       \<and> RawQuery (req_URL (populateHTTPRequest L r httpReq)) =
           join_amp (map (\<lambda>(k, v). QueryEscape L k @ ''='' @ QueryEscape L v) ps)
       \<and> sorted (map fst ps)
       \<and> filter (\<lambda>p. fst p = k) ps =
           map (Pair k) (Values_Get (URL_Query L u) k)
           @ filter (\<lambda>p. fst p = k) (map qpair (queries r))
       \<and> length (filter (\<lambda>p. fst p = k) ps) =
           length (Values_Get (URL_Query L u) k) + length (filter (\<lambda>q. key q = k) (queries r))"
proof -
  have ps: "Values_pairs (foldl (\<lambda>q qry. Values_Add (key qry) (vd_string (value qry)) q)
               (URL_Query L u) (queries r)) = ps"
    using assms(4) by (simp add: Values_pairs_foldl)
  have 1: "RawQueryURL L r =
           Ret (URL_String (u\<lparr> RawQuery :=
                  join_amp (map (\<lambda>(k, v). QueryEscape L k @ ''='' @ QueryEscape L v) ps) \<rparr>), None)"
    using assms(1,2) ps by (simp add: RawQueryURL_def http_NewRequest_def Let_def Values_Encode_def)
  have 2: "RawQuery (req_URL (populateHTTPRequest L r httpReq)) =
           join_amp (map (\<lambda>(k, v). QueryEscape L k @ ''='' @ QueryEscape L v) ps)"
    using assms(3) ps by (simp add: populateHTTPRequest_def Let_def Values_Encode_def)
  have 3: "sorted (map fst ps)" using ps Values_pairs_sorted by metis
  have 4: "filter (\<lambda>p. fst p = k) ps =
           map (Pair k) (Values_Get (URL_Query L u) k)
           @ filter (\<lambda>p. fst p = k) (map qpair (queries r))"
    unfolding assms(4) by (simp add: sort_key_filter_key Values_pairs_filter)
  have "length (filter (\<lambda>p. fst p = k) (map qpair (queries r)))
          = length (filter (\<lambda>q. key q = k) (queries r))"
    by (induction "queries r" arbitrary: r) (simp_all add: filter_map comp_def qpair_def)
  then have 5: "length (filter (\<lambda>p. fst p = k) ps) =
           length (Values_Get (URL_Query L u) k) + length (filter (\<lambda>q. key q = k) (queries r))"
    using 4 by simp
  from 1 2 3 4 5 show ?thesis by blast
qed

theorem query_order_witness:
  "url_Parse lib0 (URL (endPoint req_q)) = Inr url0 \<and> validMethod lib0 ''GET''
   \<and> req_URL (httpReq0 ''GET'') = url0
   \<and> map qpair (queries req_q) = [(''a'', ''1''), (''b'', ''1''), (''a'', ''2'')]
   \<and> sort_key fst (Values_pairs (URL_Query lib0 url0) @ map qpair (queries req_q))
       = [(''a'', ''1''), (''a'', ''2''), (''b'', ''1'')]
   \<and> RawQueryURL lib0 req_q = Ret (''http://h/p?a=1&a=2&b=1'', None)
   \<and> RawQuery (req_URL (populateHTTPRequest lib0 req_q (httpReq0 ''GET''))) = ''a=1&a=2&b=1''
   \<and> length (filter (\<lambda>p. fst p = ''a'')
        (sort_key fst (Values_pairs (URL_Query lib0 url0) @ map qpair (queries req_q)))) = 2"
proof -
  have h1: "url_Parse lib0 (URL (endPoint req_q)) = Inr url0"
    by (simp add: req_q_def build_defs eval_defs url0_def)
  have h2: "validMethod lib0 ''GET''" by (simp add: lib0_def)
  have h3: "req_URL (httpReq0 ''GET'') = url0" by (simp add: httpReq0_def url0_def)
  have q: "map qpair (queries req_q) = [(''a'', ''1''), (''b'', ''1''), (''a'', ''2'')]"
    by (simp add: req_q_def build_defs eval_defs)
  have s: "sort_key fst (Values_pairs (URL_Query lib0 url0) @ map qpair (queries req_q))
       = [(''a'', ''1''), (''a'', ''2''), (''b'', ''1'')]"
    unfolding q by (simp add: eval_defs url0_def)
  show ?thesis
    using query_order [OF h1 h2 h3 refl, of "''a''"] h1 h2 h3 q
    unfolding s
    by (simp add: URL_String_def url0_def lib0_def req_q_def AddQuery_def)
qed

text \<open>
  C3, as it is stated, fails: after adding \<open>b\<close> and then \<open>a\<close>, the query string has \<open>a\<close>
  before \<open>b\<close>.
\<close>

theorem query_insertion_order_counterexample:
  "map qpair (queries req_ba) = [(''b'', ''1''), (''a'', ''2'')]
   \<and> RawQueryURL lib0 req_ba = Ret (''http://h/p?a=2&b=1'', None)
   \<and> RawQuery (req_URL (populateHTTPRequest lib0 req_ba (httpReq0 ''GET''))) = ''a=2&b=1''"
  by (simp add: req_ba_def RawQueryURL_def build_defs eval_defs)

section \<open>GET and its retries\<close>

lemma word_succ_unat:
  fixes retry n :: "64 word"
  assumes "retry \<le> n" "n \<noteq> - 1"
  shows "unat (retry + 1) = unat retry + 1"
proof -
  have "retry \<noteq> - 1" using assms by (metis word_order.extremum_unique)
  then have "1 + retry \<noteq> 0" by (metis add.commute add_eq_0_iff2 eq_neg_iff_add_eq_0)
  then have "unat (1 + retry) = Suc (unat retry)" by (rule unatSuc)
  then show ?thesis by (simp add: add.commute)
qed

lemma Sleep_load: "load (Sleep ms w) p = load w p"
  by (rule load_heap_eq) (simp add: Sleep_def)

text \<open>
  Unless the retry count is the largest machine word, where \<open>retry++\<close> wraps around, the
  loop comes to an end. Each round sleeps 500 ms and starts one call.
\<close>

lemma GET_loop_returns:
  assumes "n \<noteq> - 1" "load w (Options r) = Some opts"
  shows "\<exists>res w'. GET_loop L r T n retry w = Some (res, w') \<and> heap w' = heap w
            \<and> calls w \<le> calls w' \<and> slept w \<le> slept w'
            \<and> (retry \<le> n \<longrightarrow> calls w + 1 \<le> calls w' \<and> slept w + 500 \<le> slept w')"
  using assms(2)
proof (induction k \<equiv> "unat n + 1 - unat retry" arbitrary: retry w rule: less_induct)
  case less
  show ?case
  proof (cases "retry \<le> n")
    case False
    then show ?thesis by (subst GET_loop.simps) simp
  next
    case True
    define w1 where "w1 = Sleep 500 w"
    obtain out w2 where c: "callAPIWithTimeout L ''GET'' r T w1 = (out, w2)"
      by (cases "callAPIWithTimeout L ''GET'' r T w1")
    have l1: "load w1 (Options r) = Some opts" using less.prems by (simp add: w1_def Sleep_load)
    have h2: "heap w2 = heap w" using callAPIWithTimeout_heap [of L "''GET''" r T w1] c
      by (simp add: w1_def Sleep_def)
    have c2: "calls w2 = calls w + 1" using callAPIWithTimeout_calls [OF l1, of L "''GET''" T] c
      by (simp add: w1_def Sleep_def)
    have s2: "slept w2 = slept w + 500" using callAPIWithTimeout_slept [of L "''GET''" r T w1] c
      by (simp add: w1_def Sleep_def)
    have l2: "load w2 (Options r) = Some opts" using less.prems h2 load_heap_eq by metis
    show ?thesis
    proof (cases out)
      case Panic
      then show ?thesis using True c h2 c2 s2
        by (subst GET_loop.simps) (simp add: w1_def [symmetric])
    next
      case (Ret p)
      obtain res e where p: "p = (res, e)" by (cases p)
      show ?thesis
      proof (cases "e = None")
        case True
        then show ?thesis using \<open>retry \<le> n\<close> c h2 c2 s2 Ret p
          by (subst GET_loop.simps) (simp add: w1_def [symmetric])
      next
        case False
        have u: "unat (retry + 1) = unat retry + 1"
          using \<open>retry \<le> n\<close> assms(1) by (rule word_succ_unat)
        have "unat retry \<le> unat n" using \<open>retry \<le> n\<close> by (simp add: word_le_nat_alt)
        then have m: "unat n + 1 - unat (retry + 1) < unat n + 1 - unat retry" using u by simp
        from less.hyps [OF m l2] obtain res' w'
          where r: "GET_loop L r T n (retry + 1) w2 = Some (res', w')" "heap w' = heap w2"
            "calls w2 \<le> calls w'" "slept w2 \<le> slept w'"
          by blast
        show ?thesis using \<open>retry \<le> n\<close> c h2 c2 s2 Ret p False r
          by (subst GET_loop.simps) (simp add: w1_def [symmetric])
      qed
    qed
  qed
qed

text \<open>
  C2, as the code has it. \<open>GET\<close> retries after a timeout as after any other error.
  Take an attempt that ends with \<open>ErrTimeout\<close>, and a retry count that is not the
  largest machine word. As the first attempt of a \<open>GET\<close> with a positive retry count it
  is followed by a sleep of 500 ms and a further call, and \<open>GET\<close> returns. As the retry
  with the number \<open>retry\<close> in the loop, below the retry count, it is followed by a
  further call as well.
\<close>

theorem GET_retries_after_timeout:
  assumes "load w (Options r) = Some opts"
    and "0 < timeout opts" and "deadline_first (T (calls w))"
    and "retries opts \<noteq> - 1"
  shows "fst (callAPIWithTimeout L ''GET'' r T w) = Ret (None, Some ErrTimeout)
       \<and> (0 < retries opts \<longrightarrow>
            (\<exists>out w'. GET L r T w = Some (out, w')
               \<and> calls w + 2 \<le> calls w' \<and> slept w + 500 \<le> slept w'))
       \<and> (retry < retries opts \<longrightarrow>
            (\<exists>res w'. GET_loop L r T (retries opts) retry w = Some (res, w')
               \<and> calls w + 2 \<le> calls w' \<and> slept w + 1000 \<le> slept w'))"
proof -
  have attempt: "\<exists>w1. callAPIWithTimeout L ''GET'' r T v = (Ret (None, Some ErrTimeout), w1)
      \<and> heap w1 = heap v \<and> calls w1 = calls v + 1 \<and> slept w1 = slept v
      \<and> load w1 (Options r) = Some opts"
    if v: "heap v = heap w" "calls v = calls w" for v
  proof -
    have lv: "load v (Options r) = Some opts" using assms(1) v(1) load_heap_eq by metis
    obtain out w1 where c: "callAPIWithTimeout L ''GET'' r T v = (out, w1)"
      by (cases "callAPIWithTimeout L ''GET'' r T v")
    have o: "out = Ret (None, Some ErrTimeout)"
      using lv assms(2,3) v(2) c by (auto simp: callAPIWithTimeout_def split: prod.splits)
    have h1: "heap w1 = heap v" using callAPIWithTimeout_heap [of L "''GET''" r T v] c by simp
    have c1: "calls w1 = calls v + 1"
      using callAPIWithTimeout_calls [OF lv, of L "''GET''" T] c by simp
    have s1: "slept w1 = slept v" using callAPIWithTimeout_slept [of L "''GET''" r T v] c by simp
    have l1: "load w1 (Options r) = Some opts" using lv h1 load_heap_eq by metis
    show ?thesis using c o h1 c1 s1 l1 by simp
  qed
  from attempt [of w] obtain w1
    where a: "callAPIWithTimeout L ''GET'' r T w = (Ret (None, Some ErrTimeout), w1)"
      "calls w1 = calls w + 1" "slept w1 = slept w" "load w1 (Options r) = Some opts"
    by auto
  have 1: "fst (callAPIWithTimeout L ''GET'' r T w) = Ret (None, Some ErrTimeout)"
    using a(1) by simp
  have 2: "\<exists>out w'. GET L r T w = Some (out, w')
             \<and> calls w + 2 \<le> calls w' \<and> slept w + 500 \<le> slept w'"
    if pos: "0 < retries opts"
  proof -
    have "(1 :: 64 word) \<le> retries opts"
      using pos by (simp add: word_le_nat_alt word_less_nat_alt)
    with GET_loop_returns [OF assms(4) a(4), of L T 1] obtain res w'
      where r: "GET_loop L r T (retries opts) 1 w1 = Some (res, w')"
        "calls w1 + 1 \<le> calls w'" "slept w1 + 500 \<le> slept w'"
      by blast
    show ?thesis using a pos r
      by (cases res) (auto simp: GET_def)
  qed
  have 3: "\<exists>res w'. GET_loop L r T (retries opts) retry w = Some (res, w')
             \<and> calls w + 2 \<le> calls w' \<and> slept w + 1000 \<le> slept w'"
    if lt: "retry < retries opts"
  proof -
    from attempt [of "Sleep 500 w"] obtain w2
      where b: "callAPIWithTimeout L ''GET'' r T (Sleep 500 w) = (Ret (None, Some ErrTimeout), w2)"
        "calls w2 = calls w + 1" "slept w2 = slept w + 500" "load w2 (Options r) = Some opts"
      by (auto simp: Sleep_def)
    have le: "retry \<le> retries opts" using lt by simp
    have "retry + 1 \<le> retries opts" using lt by (rule inc_le)
    with GET_loop_returns [OF assms(4) b(4), of L T "retry + 1"] obtain res w'
      where r: "GET_loop L r T (retries opts) (retry + 1) w2 = Some (res, w')"
        "calls w2 + 1 \<le> calls w'" "slept w2 + 500 \<le> slept w'"
      by blast
    show ?thesis using le b r
      by (subst GET_loop.simps) simp
  qed
  from 1 2 3 show ?thesis by blast
qed

theorem GET_retries_after_timeout_witness:
  "load (world1 100 2) (Options req0) = Some \<lparr> timeout = 100, retries = 2 \<rparr>
   \<and> deadline_first (T_late_then (T_reply 200 ''ok'') (calls (world1 100 2)))
   \<and> (1 :: 64 word) < 2
   \<and> fst (callAPIWithTimeout lib0 ''GET'' req0 (T_late_then (T_reply 200 ''ok'')) (world1 100 2))
       = Ret (None, Some ErrTimeout)
   \<and> (\<exists>out w'. GET lib0 req0 (T_late_then (T_reply 200 ''ok'')) (world1 100 2) = Some (out, w')
         \<and> calls (world1 100 2) + 2 \<le> calls w' \<and> slept (world1 100 2) + 500 \<le> slept w')
   \<and> (\<exists>res w'. GET_loop lib0 req0 (T_late_then (T_reply 200 ''ok'')) 2 1 (world1 100 2)
           = Some (res, w')
         \<and> calls (world1 100 2) + 2 \<le> calls w' \<and> slept (world1 100 2) + 1000 \<le> slept w')"
proof -
  have h1: "load (world1 100 2) (Options req0) = Some \<lparr> timeout = 100, retries = 2 \<rparr>"
    by (rule load_world1)
  have h2: "0 < timeout \<lparr> timeout = 100, retries = 2 \<rparr>" by simp
  have h3: "deadline_first (T_late_then (T_reply 200 ''ok'') (calls (world1 100 2)))"
    by (simp add: T_late_then_def T_late_def world1_def)
  have h4: "retries \<lparr> timeout = 100, retries = 2 \<rparr> \<noteq> - 1" by simp
  have pos: "(0 :: 64 word) < 2" by simp
  have lt: "(1 :: 64 word) < 2" by (simp add: word_less_nat_alt)
  note t = GET_retries_after_timeout [where L = lib0 and retry = 1 and w = "world1 100 2"
      and r = req0 and T = "T_late_then (T_reply 200 ''ok'')"
      and opts = "\<lparr> timeout = 100, retries = 2 \<rparr>", OF h1 h2 h3 h4]
  from t pos lt h1 h3 show ?thesis
    by (simp only: Options.select_convs simp_thms)
qed

text \<open>
  C2, as it is stated, fails: the first attempt ends with \<open>ErrTimeout\<close>, the retry count
  is 1, and \<open>GET\<close> starts a second call.
\<close>

theorem GET_retry_after_timeout_example:
  "fst (callAPIWithTimeout lib0 ''GET'' req0 (T_late_then (T_reply 200 ''ok'')) (world1 100 1))
     = Ret (None, Some ErrTimeout)
   \<and> map_option (calls \<circ> snd) (GET lib0 req0 (T_late_then (T_reply 200 ''ok'')) (world1 100 1))
     = Some 2"
  apply (simp add: GET_def eval_defs T_late_then_def)
  apply (subst GET_loop.simps)
  apply (simp add: eval_defs T_late_then_def)
  apply (subst GET_loop.simps)
  apply (simp add: word_le_nat_alt)
  done

text \<open>
  With a timeout set, the error that \<open>callAPIWithTimeout\<close> returns is never nil.
\<close>

lemma callAPIWithTimeout_error_not_nil:
  assumes "load w (Options r) = Some opts" "0 < timeout opts"
    and "fst (callAPIWithTimeout L m r T w) = Ret (res, e)"
  shows "e \<noteq> None"
  using assms
  by (auto simp: callAPIWithTimeout_def split: prod.splits if_splits result.splits)

text \<open>
  What the loop returns from \<open>GET\<close> is a panic or an outcome with a nil error. So after a
  failed first attempt \<open>GET\<close> returns that attempt's outcome, a later success or a panic,
  and never the failure of a later attempt.
\<close>

lemma GET_loop_returned_aux:
  assumes "GET_loop L r T n retry w = Some y"
  shows "\<forall>out. fst y = Some out \<longrightarrow> out = Panic \<or> (\<exists>res. out = Ret (res, None))"
proof (rule GET_loop.raw_induct
    [where P = "\<lambda>L r T n retry w y.
       \<forall>out. fst y = Some out \<longrightarrow> out = Panic \<or> (\<exists>res. out = Ret (res, None))", OF _ assms])
  fix loop L r T n retry w y
  assume IH: "\<And>L r T n retry w y. loop L r T n retry w = Some y \<Longrightarrow>
      \<forall>out. fst y = Some out \<longrightarrow> out = Panic \<or> (\<exists>res. out = Ret (res, None))"
    and step: "(if retry \<le> n
      then let w = Sleep 500 w
           in case callAPIWithTimeout L ''GET'' r T w of
              (Panic, w) \<Rightarrow> Some (Some Panic, w)
              | (Ret (res, err), w) \<Rightarrow>
                  if err = None then Some (Some (Ret (res, err)), w)
                  else loop L r T n (retry + 1) w
      else Some (None, w)) = Some y"
  show "\<forall>out. fst y = Some out \<longrightarrow> out = Panic \<or> (\<exists>res. out = Ret (res, None))"
    using step IH
    by (auto simp: Let_def split: if_splits prod.splits result.splits)
qed

lemma GET_loop_returned:
  "GET_loop L r T n retry w = Some (Some out, w') \<Longrightarrow>
     out = Panic \<or> (\<exists>res. out = Ret (res, None))"
  using GET_loop_returned_aux [of L r T n retry w "(Some out, w')"] by simp

lemma GET_outcome:
  assumes "callAPIWithTimeout L ''GET'' r T w = (Ret (res, Some e), w1)"
    and "GET L r T w = Some (out, w')"
  shows "out = Ret (res, Some e) \<or> out = Panic \<or> (\<exists>res'. out = Ret (res', None))"
  using assms GET_loop_returned
  by (fastforce simp: GET_def split: option.splits if_splits prod.splits)

text \<open>
  C1, at a failing input: the timeout is 1000 ms, the network answers 200 before the
  deadline and \<open>callAPI\<close> returns the Response with a nil error. \<open>callAPIWithTimeout\<close>,
  and so \<open>POST\<close> and \<open>GET\<close>, return the Response together with \<open>&PackageError{nil}\<close>,
  which is not nil; \<open>GET\<close>, with a retry count of 2, therefore repeats the successful
  call twice.
\<close>

theorem timeout_wraps_nil_error:
  "fst (callAPI lib0 ''GET'' req0 (T_reply 200 ''ok'') (world1 1000 2)) =
     Ret (Some \<lparr> Status = 200, Body = ''ok'' \<rparr>, None)
   \<and> fst (callAPIWithTimeout lib0 ''GET'' req0 (T_reply 200 ''ok'') (world1 1000 2)) =
     Ret (Some \<lparr> Status = 200, Body = ''ok'' \<rparr>, Some (PackageError None))
   \<and> fst (POST lib0 req0 (T_reply 200 ''ok'') (world1 1000 2)) =
     Ret (Some \<lparr> Status = 200, Body = ''ok'' \<rparr>, Some (PackageError None))
   \<and> GET lib0 req0 (T_reply 200 ''ok'') (world1 1000 2) =
     Some (Ret (Some \<lparr> Status = 200, Body = ''ok'' \<rparr>, Some (PackageError None)),
           (world1 1000 2)\<lparr> calls := 3, slept := 1000 \<rparr>)"
  apply (simp add: GET_def eval_defs)
  apply (subst GET_loop.simps)
  apply (simp add: eval_defs)
  apply (subst GET_loop.simps)
  apply (simp add: eval_defs)
  apply (subst GET_loop.simps)
  apply (simp add: word_le_nat_alt)
  done

text \<open>
  C4, at a failing input: no timeout, a retry count of 1, the first attempt is answered
  with status 500 and the retry is refused. Both attempts fail; \<open>GET\<close> returns the
  outcome of the first attempt, not that of the second and last one.
\<close>

theorem GET_returns_first_failure:
  "GET lib0 req0 T_two (world1 0 1) =
     Some (Ret (Some \<lparr> Status = 500, Body = ''first'' \<rparr>, Some (APIError 500 ''first'' req0)),
           (world1 0 1)\<lparr> calls := 2, slept := 500 \<rparr>)
   \<and> fst (callAPIWithTimeout lib0 ''GET'' req0 T_two ((world1 0 1)\<lparr> calls := 1, slept := 500 \<rparr>)) =
      Ret (None, Some (PackageError (Some
         (Errorf ''error in GET'' ''(): communicating with api: '' (LibError ''connection refused'')))))"
  apply (simp add: GET_def eval_defs T_two_def)
  apply (subst GET_loop.simps)
  apply (simp add: eval_defs T_two_def)
  apply (subst GET_loop.simps)
  apply (simp add: word_le_nat_alt)
  done

end
